theory Spec2Isabelle
  imports Complex_Main "HOL-Library.Product_Lexorder" "HOL-Library.Multiset"
begin

section \<open>Points and distances\<close>

text \<open>
  The scripts work on NumPy arrays of shape \<open>(n, 2)\<close>: one row per point, column 0 the
  X coordinate and column 1 the Y coordinate. A row is modelled as a pair of reals and an
  array as a list of rows. NumPy's \<open>float64\<close> arithmetic is idealised to exact real
  arithmetic throughout (no rounding error, no NaN, no infinity).
\<close>

type_synonym point = "real \<times> real"

text \<open>\<open>scipy.spatial.distance.cdist(..., 'euclidean')\<close> on one pair of rows.\<close>

definition euclidean :: "point \<Rightarrow> point \<Rightarrow> real" where
  "euclidean p q = sqrt ((fst p - fst q)\<^sup>2 + (snd p - snd q)\<^sup>2)"

text \<open>\<open>cdist([shot], pts)\<close>: the single row of distances from \<open>shot\<close> to every row of \<open>pts\<close>.\<close>

definition cdist_row :: "point \<Rightarrow> point list \<Rightarrow> real list" where
  "cdist_row shot pts = map (euclidean shot) pts"

text \<open>\<open>np.min\<close> of a non-empty array (NumPy raises on an empty one; every caller guards).\<close>

definition np_min :: "real list \<Rightarrow> real" where
  "np_min ds = Min (set ds)"

text \<open>\<open>np.max\<close> and \<open>np.mean\<close> of a non-empty array.\<close>

definition np_max :: "real list \<Rightarrow> real" where
  "np_max ds = Max (set ds)"


text \<open>\<open>np.argmin\<close>: the index of the first occurrence of the minimum.\<close>

definition np_argmin :: "real list \<Rightarrow> nat" where
  "np_argmin ds = length (takeWhile (\<lambda>d. d \<noteq> np_min ds) ds)"

section \<open>G\_shot\_match.py: the sequential unique matcher\<close>

text \<open>
  \<open>np.lexsort((k1, k2))\<close> sorts by the last key first and breaks ties by the keys before
  it; it is stable. It is modelled as two successive stable sorts.
\<close>

definition np_lexsort2 :: "('a \<Rightarrow> real) \<Rightarrow> ('a \<Rightarrow> real) \<Rightarrow> 'a list \<Rightarrow> 'a list" where
  "np_lexsort2 k1 k2 xs = sort_key k2 (sort_key k1 xs)"

definition sort_shots_from_right_bottom_to_left_top :: "point list \<Rightarrow> point list" where
  "sort_shots_from_right_bottom_to_left_top shot_points =
     np_lexsort2 (\<lambda>p. - fst p) (\<lambda>p. - snd p) shot_points"

text \<open>
  The three variables the loop of \<open>match_shots_to_grid\<close> updates: the dictionary
  \<open>shot_to_grid\<close>, the boolean mask \<open>matched_grid\<close> and the list \<open>matched_shots\<close>.
\<close>

record match_state =
  shot_to_grid :: "point \<rightharpoonup> point"
  matched_grid :: "bool list"
  matched_shots :: "point list"

text \<open>\<open>np.where(~matched_grid)[0]\<close>: the indices of the free grid nodes, ascending.\<close>

definition free_indices :: "bool list \<Rightarrow> nat list" where
  "free_indices mg = filter (\<lambda>i. \<not> mg ! i) [0..<length mg]"

text \<open>\<open>cdist([shot], grid_points[~matched_grid])\<close>.\<close>

definition free_distances :: "point list \<Rightarrow> bool list \<Rightarrow> point \<Rightarrow> real list" where
  "free_distances grid_points mg shot =
     cdist_row shot (map (\<lambda>i. grid_points ! i) (free_indices mg))"

text \<open>
  \<open>closest_index = np.argmin(distances)\<close> followed by
  \<open>global_index = np.where(~matched_grid)[0][closest_index]\<close>.
\<close>

definition closest_global_index :: "point list \<Rightarrow> bool list \<Rightarrow> point \<Rightarrow> nat" where
  "closest_global_index grid_points mg shot =
     free_indices mg ! np_argmin (free_distances grid_points mg shot)"

text \<open>One iteration of the loop body, for the source point \<open>shot\<close>.\<close>

definition match_step :: "point list \<Rightarrow> real \<Rightarrow> match_state \<Rightarrow> point \<Rightarrow> match_state" where
  "match_step grid_points max_distance st shot =
     (let distances = free_distances grid_points (matched_grid st) shot
      in if length distances > 0 \<and> np_min distances \<le> max_distance then
           (let global_index = closest_global_index grid_points (matched_grid st) shot
            in \<lparr> shot_to_grid = (shot_to_grid st)(shot \<mapsto> grid_points ! global_index),
                 matched_grid = (matched_grid st)[global_index := True],
                 matched_shots = matched_shots st @ [grid_points ! global_index] \<rparr>)
         else st)"

definition init_state :: "point list \<Rightarrow> match_state" where
  "init_state grid_points =
     \<lparr> shot_to_grid = Map.empty,
       matched_grid = replicate (length grid_points) False,
       matched_shots = [] \<rparr>"

text \<open>The \<open>for shot in sorted_shots\<close> loop, from a given state.\<close>

definition match_loop :: "point list \<Rightarrow> real \<Rightarrow> match_state \<Rightarrow> point list \<Rightarrow> match_state" where
  "match_loop grid_points max_distance st shots = foldl (match_step grid_points max_distance) st shots"

definition match_shots_to_grid ::
  "point list \<Rightarrow> point list \<Rightarrow> real \<Rightarrow> (point \<rightharpoonup> point) \<times> point list" where
  "match_shots_to_grid shot_points grid_points max_distance =
     (let sorted_shots = sort_shots_from_right_bottom_to_left_top shot_points;
          final = match_loop grid_points max_distance (init_state grid_points) sorted_shots
      in (shot_to_grid final, matched_shots final))"

section \<open>F\_receivers\_regularize.py: the grid synthesizer\<close>

text \<open>
  The exceptions the modelled code can raise: NumPy's \<open>ValueError\<close> for the minimum or
  maximum of an empty array, the failure of \<open>round\<close> on the quotient by a zero spacing,
  a value that does not fit the \<open>int32\<close> element type, the script's own
  \<open>ValueError\<close> for a non-integer coordinate, and an \<open>IndexError\<close>.
\<close>

datatype py_error =
  EmptyArray | ZeroSpacing | Int32Overflow | NonIntegerCoordinates | IndexOutOfBounds

text \<open>Python's \<open>round\<close> (and \<open>np.round\<close>): to the nearest integer, a half to the even one.\<close>

definition py_round :: "real \<Rightarrow> int" where
  "py_round v =
     (let f = \<lfloor>v\<rfloor>; r = v - of_int f
      in if r < 1 / 2 then f else if 1 / 2 < r then f + 1 else if even f then f else f + 1)"

text \<open>Python's \<open>int\<close> of a float, and NumPy's cast of a float to an integer type: truncation toward zero.\<close>

definition py_int :: "real \<Rightarrow> int" where
  "py_int v = (if 0 \<le> v then \<lfloor>v\<rfloor> else \<lceil>v\<rceil>)"

definition in_int32 :: "int \<Rightarrow> bool" where
  "in_int32 i \<longleftrightarrow> - (2 ^ 31) \<le> i \<and> i < 2 ^ 31"

text \<open>
  \<open>np.array(values, dtype=np.int32)\<close>: every value is truncated to an integer. A value
  outside the \<open>int32\<close> range is refused by current NumPy when it is a Python integer and
  is unspecified when it is a float; the model raises in both cases.
\<close>

definition as_int32_array :: "real list \<Rightarrow> py_error + int list" where
  "as_int32_array vs =
     (if list_all (\<lambda>v. in_int32 (py_int v)) vs then Inr (map py_int vs) else Inl Int32Overflow)"

text \<open>\<open>astype(np.int32)\<close> on an integer: the value wrapped into the signed 32-bit range.\<close>

definition astype_int32 :: "int \<Rightarrow> int" where
  "astype_int32 i = (i + 2 ^ 31) mod 2 ^ 32 - 2 ^ 31"

text \<open>
  \<open>X, Y = np.meshgrid(x, y)\<close> followed by \<open>np.column_stack((X.ravel(), Y.ravel()))\<close>:
  one row \<open>(x[c], y[r])\<close> per node, row by row.
\<close>

definition np_meshgrid_points :: "'a list \<Rightarrow> 'b list \<Rightarrow> ('a \<times> 'b) list" where
  "np_meshgrid_points x y = concat (map (\<lambda>b. map (\<lambda>a. (a, b)) x) y)"

text \<open>The column and row counts and the start point, as \<open>regularize_coordinates\<close> computes them.\<close>

definition grid_cols :: "point list \<Rightarrow> real \<Rightarrow> int" where
  "grid_cols orig_coords col_spacing =
     py_round ((np_max (map fst orig_coords) - np_min (map fst orig_coords)) / col_spacing) + 1"

definition grid_rows :: "point list \<Rightarrow> real \<Rightarrow> int" where
  "grid_rows orig_coords row_spacing =
     py_round ((np_max (map snd orig_coords) - np_min (map snd orig_coords)) / row_spacing) + 1"

definition start_x :: "point list \<Rightarrow> int" where
  "start_x orig_coords = py_int (np_min (map fst orig_coords))"

definition start_y :: "point list \<Rightarrow> int" where
  "start_y orig_coords = py_int (np_min (map snd orig_coords))"

text \<open>
  The two coordinate arrays \<open>x\<close> and \<open>y\<close> of \<open>regularize_coordinates\<close>: the list
  comprehensions over \<open>range(cols)\<close> and \<open>range(rows)\<close>, converted to \<open>int32\<close>.
\<close>

definition grid_axes :: "point list \<Rightarrow> real \<Rightarrow> real \<Rightarrow> py_error + (int list \<times> int list)" where
  "grid_axes orig_coords row_spacing col_spacing =
     (if orig_coords = [] then Inl EmptyArray
      else if col_spacing = 0 \<or> row_spacing = 0 then Inl ZeroSpacing
      else
        (case as_int32_array
                (map (\<lambda>i. of_int (start_x orig_coords) + of_nat i * col_spacing)
                   [0..<nat (grid_cols orig_coords col_spacing)]) of
           Inl e \<Rightarrow> Inl e
         | Inr x \<Rightarrow>
            (case as_int32_array
                    (map (\<lambda>i. of_int (start_y orig_coords) + of_nat i * row_spacing)
                       [0..<nat (grid_rows orig_coords row_spacing)]) of
               Inl e \<Rightarrow> Inl e
             | Inr y \<Rightarrow> Inr (x, y))))"

text \<open>
  \<open>regularize_coordinates\<close>, from the loaded array \<open>orig_coords\<close> to the returned
  \<open>reg_coords\<close>. The console output, the nearest-neighbour statistics, the saved file
  and the figure do not enter the returned value and are left out.
\<close>

definition regularize_coordinates ::
  "point list \<Rightarrow> real \<Rightarrow> real \<Rightarrow> py_error + (int \<times> int) list" where
  "regularize_coordinates orig_coords row_spacing col_spacing =
     (case grid_axes orig_coords row_spacing col_spacing of
        Inl e \<Rightarrow> Inl e
      | Inr (x, y) \<Rightarrow>
          (let reg_coords = np_meshgrid_points x y
           in if \<not> list_all (\<lambda>(a, b). a = astype_int32 a \<and> b = astype_int32 b) reg_coords
              then Inl NonIntegerCoordinates
              else Inr reg_coords))"


subsection \<open>The specification's wording, for comparison\<close>



section \<open>H\_receivers\_match.py: the offset-align matcher\<close>








section \<open>Invariants of the loop of the sequential unique matcher\<close>

definition match_inv :: "point list \<Rightarrow> real \<Rightarrow> match_state \<Rightarrow> bool" where
  "match_inv grid d st \<longleftrightarrow>
     length (matched_grid st) = length grid \<and>
     (\<exists>f. inj_on f (dom (shot_to_grid st)) \<and>
          (\<forall>s\<in>dom (shot_to_grid st).
             f s < length grid \<and> matched_grid st ! f s \<and>
             shot_to_grid st s = Some (grid ! f s) \<and> euclidean s (grid ! f s) \<le> d))"

definition report_inv :: "match_state \<Rightarrow> bool" where
  "report_inv st \<longleftrightarrow>
     finite (dom (shot_to_grid st)) \<and>
     set (matched_shots st) = ran (shot_to_grid st) \<and>
     length (matched_shots st) = card (dom (shot_to_grid st))"


subsection \<open>The worked scenario of the specification\<close>

text \<open>
  The 3 by 3 lattice anchored at the origin with spacing 10, in the row-major order in
  which the grid synthesizer stores it, and the three source points.
\<close>

definition scenario_grid :: "point list" where
  "scenario_grid = [(0,0),(10,0),(20,0),(0,10),(10,10),(20,10),(0,20),(10,20),(20,20)]"

definition scenario_shots :: "point list" where
  "scenario_shots = [(1,1),(9,9),(21,21)]"

section \<open>Properties of the sequential unique matcher\<close>

subsection \<open>The processing order\<close>

lemma insort_key_lex:
  assumes "sorted_wrt (\<lambda>p q. k2 p < k2 q \<or> (k2 p = k2 q \<and> k1 p \<le> k1 q)) zs"
    and "\<forall>z\<in>set zs. k1 y \<le> k1 z"
  shows "sorted_wrt (\<lambda>p q. k2 p < k2 q \<or> (k2 p = k2 q \<and> k1 p \<le> (k1 q :: real))) (insort_key (k2 :: 'a \<Rightarrow> real) y zs)"
  using assms
proof (induction zs)
  case Nil
  then show ?case by simp
next
  case (Cons z zs)
  show ?case
  proof (cases "k2 y \<le> k2 z")
    case True
    have "\<forall>w\<in>set zs. k2 z \<le> k2 w" using Cons.prems(1) by auto
    with True Cons.prems show ?thesis by fastforce
  next
    case False
    with Cons show ?thesis by (auto simp: set_insort_key)
  qed
qed

lemma sort_key_lex:
  assumes "sorted_wrt (\<lambda>p q. k1 p \<le> (k1 q :: real)) ys"
  shows "sorted_wrt (\<lambda>p q. k2 p < k2 q \<or> (k2 p = k2 q \<and> k1 p \<le> k1 q)) (sort_key (k2 :: 'a \<Rightarrow> real) ys)"
  using assms
proof (induction ys)
  case Nil
  then show ?case by simp
next
  case (Cons y ys)
  have "sort_key k2 (y # ys) = insort_key k2 y (sort_key k2 ys)"
    by (simp add: sort_key_def)
  moreover have "\<forall>z\<in>set (sort_key k2 ys). k1 y \<le> k1 z"
    using Cons.prems by simp
  ultimately show ?case
    using Cons insort_key_lex [of k2 k1 "sort_key k2 ys" y] by simp
qed

lemma np_lexsort2_sorted:
  "sorted_wrt (\<lambda>p q. k2 p < k2 q \<or> (k2 p = k2 q \<and> k1 p \<le> k1 q)) (np_lexsort2 k1 k2 xs)"
proof -
  have "sorted (map k1 (sort_key k1 xs))" by simp
  then have "sorted_wrt (\<lambda>p q. k1 p \<le> k1 q) (sort_key k1 xs)"
    by (simp add: sorted_map)
  then show ?thesis
    unfolding np_lexsort2_def by (rule sort_key_lex)
qed

lemma np_lexsort2_mset: "mset (np_lexsort2 k1 k2 xs) = mset xs"
  by (simp add: np_lexsort2_def)


subsection \<open>Minimum, first minimum and free indices\<close>

lemma np_min_in: "ds \<noteq> [] \<Longrightarrow> np_min ds \<in> set ds"
  by (simp add: np_min_def)

lemma np_min_le: "d \<in> set ds \<Longrightarrow> np_min ds \<le> d"
  by (simp add: np_min_def)

lemma np_argmin_less: "ds \<noteq> [] \<Longrightarrow> np_argmin ds < length ds"
proof -
  assume ne: "ds \<noteq> []"
  let ?tw = "takeWhile (\<lambda>d. d \<noteq> np_min ds) ds"
  have "?tw \<noteq> ds"
    using np_min_in [OF ne] by (auto simp: takeWhile_eq_all_conv)
  moreover have "?tw = take (length ?tw) ds"
    by (rule takeWhile_eq_take)
  ultimately have "\<not> length ds \<le> length ?tw"
    by (metis take_all)
  then show ?thesis by (simp add: np_argmin_def)
qed

lemma np_argmin_nth: "ds \<noteq> [] \<Longrightarrow> ds ! np_argmin ds = np_min ds"
  using nth_length_takeWhile [of "\<lambda>d. d \<noteq> np_min ds" ds] np_argmin_less [of ds]
  by (simp add: np_argmin_def)

lemma np_argmin_first: "j < np_argmin ds \<Longrightarrow> ds ! j \<noteq> np_min ds"
proof -
  assume j: "j < np_argmin ds"
  let ?tw = "takeWhile (\<lambda>d. d \<noteq> np_min ds) ds"
  from j have "?tw ! j \<in> set ?tw" by (simp add: np_argmin_def)
  moreover from j have "?tw ! j = ds ! j"
    by (simp add: np_argmin_def takeWhile_nth)
  ultimately show ?thesis by (auto dest: set_takeWhileD)
qed

lemma set_free_indices: "set (free_indices mg) = {i. i < length mg \<and> \<not> mg ! i}"
  by (auto simp: free_indices_def)

lemma sorted_free_indices: "sorted_wrt (<) (free_indices mg)"
  unfolding free_indices_def by (rule sorted_wrt_filter) simp

lemma length_free_distances: "length (free_distances grid mg shot) = length (free_indices mg)"
  by (simp add: free_distances_def cdist_row_def)

lemma nth_free_distances:
  "a < length (free_indices mg) \<Longrightarrow>
   free_distances grid mg shot ! a = euclidean shot (grid ! (free_indices mg ! a))"
  by (simp add: free_distances_def cdist_row_def)

lemma free_distances_Nil_iff: "free_distances grid mg shot = [] \<longleftrightarrow> free_indices mg = []"
  by (simp add: free_distances_def cdist_row_def)

lemma closest_global_index_free:
  assumes "free_indices mg \<noteq> []"
  shows "closest_global_index grid mg shot \<in> set (free_indices mg)"
proof -
  have "np_argmin (free_distances grid mg shot) < length (free_indices mg)"
    using assms np_argmin_less [of "free_distances grid mg shot"]
    by (simp add: length_free_distances free_distances_Nil_iff)
  then show ?thesis by (simp add: closest_global_index_def)
qed

lemma closest_global_index_dist:
  assumes "free_indices mg \<noteq> []"
  shows "euclidean shot (grid ! closest_global_index grid mg shot) =
         np_min (free_distances grid mg shot)"
proof -
  let ?ds = "free_distances grid mg shot"
  have ne: "?ds \<noteq> []"
    using assms by (simp add: free_distances_Nil_iff)
  then have "np_argmin ?ds < length (free_indices mg)"
    using np_argmin_less [of ?ds] by (simp add: length_free_distances)
  then have "?ds ! np_argmin ?ds = euclidean shot (grid ! closest_global_index grid mg shot)"
    by (simp add: nth_free_distances closest_global_index_def)
  with np_argmin_nth [OF ne] show ?thesis by simp
qed

lemma free_distance_ge_min:
  assumes "j \<in> set (free_indices mg)"
  shows "np_min (free_distances grid mg shot) \<le> euclidean shot (grid ! j)"
proof -
  have "euclidean shot (grid ! j) \<in> set (free_distances grid mg shot)"
    using assms by (auto simp: free_distances_def cdist_row_def)
  then show ?thesis by (rule np_min_le)
qed

lemma closest_global_index_least:
  assumes j: "j \<in> set (free_indices mg)" and lt: "j < closest_global_index grid mg shot"
  shows "np_min (free_distances grid mg shot) < euclidean shot (grid ! j)"
proof -
  let ?fr = "free_indices mg" and ?ds = "free_distances grid mg shot"
  from j obtain a where a: "a < length ?fr" "?fr ! a = j"
    by (auto simp: in_set_conv_nth)
  have ne: "?ds \<noteq> []"
    using j by (auto simp: free_distances_Nil_iff)
  have k: "np_argmin ?ds < length ?fr"
    using np_argmin_less [OF ne] by (simp add: length_free_distances)
  have "a < np_argmin ?ds"
  proof (rule ccontr)
    assume "\<not> a < np_argmin ?ds"
    then consider "np_argmin ?ds = a" | "np_argmin ?ds < a" by linarith
    then have "?fr ! np_argmin ?ds \<le> ?fr ! a"
    proof cases
      case 1
      then show ?thesis by simp
    next
      case 2
      from sorted_wrt_nth_less [OF sorted_free_indices 2 a(1)]
      show ?thesis by simp
    qed
    with lt a(2) show False by (simp add: closest_global_index_def)
  qed
  then have "?ds ! a \<noteq> np_min ?ds" by (rule np_argmin_first)
  moreover have "?ds ! a = euclidean shot (grid ! j)"
    using a by (simp add: nth_free_distances)
  ultimately show ?thesis
    using free_distance_ge_min [OF j, of grid shot] by simp
qed

lemma guard_iff:
  "(length (free_distances grid mg shot) > 0 \<and> np_min (free_distances grid mg shot) \<le> d) \<longleftrightarrow>
   (\<exists>i\<in>set (free_indices mg). euclidean shot (grid ! i) \<le> d)"
proof (cases "free_indices mg = []")
  case True
  then show ?thesis by (simp add: length_free_distances)
next
  case False
  have "(np_min (free_distances grid mg shot) \<le> d) \<longleftrightarrow>
        (\<exists>i\<in>set (free_indices mg). euclidean shot (grid ! i) \<le> d)"
    using closest_global_index_free [OF False, of grid shot]
      closest_global_index_dist [OF False, of shot grid]
      free_distance_ge_min [of _ mg grid shot]
    by (metis order_trans)
  with False show ?thesis by (simp add: length_free_distances)
qed

lemma sqrt_le_iff_sq: "0 \<le> m \<Longrightarrow> sqrt a \<le> m \<longleftrightarrow> a \<le> m\<^sup>2"
  by (metis real_sqrt_le_iff real_sqrt_abs abs_of_nonneg)

lemma np_min_single: "np_min [d] = d"
  by (simp add: np_min_def)

lemma np_min_Cons2: "np_min (d # e # ds) = min d (np_min (e # ds))"
  by (simp add: np_min_def)

lemma np_argmin_Cons:
  "np_argmin (d # ds) = (if ds = [] \<or> d \<le> np_min ds then 0 else Suc (np_argmin ds))"
proof (cases "ds = []")
  case True
  then show ?thesis by (simp add: np_argmin_def np_min_def)
next
  case False
  then have m: "np_min (d # ds) = min d (np_min ds)"
    by (simp add: np_min_def)
  show ?thesis
  proof (cases "d \<le> np_min ds")
    case True
    with m have "np_min (d # ds) = d" by simp
    with True show ?thesis by (simp add: np_argmin_def)
  next
    case nle: False
    with m have "np_min (d # ds) = np_min ds" "d \<noteq> np_min ds" by auto
    with nle False show ?thesis by (simp add: np_argmin_def)
  qed
qed

lemma free_indices_Nil: "free_indices [] = []"
  by (simp add: free_indices_def)

lemma free_indices_Cons:
  "free_indices (b # bs) = (if b then [] else [0]) @ map Suc (free_indices bs)"
proof -
  have "[0..<length (b # bs)] = 0 # map Suc [0..<length bs]"
    by (simp add: upt_conv_Cons map_Suc_upt del: upt_Suc)
  then show ?thesis
    by (simp add: free_indices_def filter_map comp_def)
qed


subsection \<open>The loop body and the loop\<close>

lemma match_step_unmatched:
  assumes "\<not> (\<exists>i\<in>set (free_indices (matched_grid st)). euclidean shot (grid ! i) \<le> d)"
  shows "match_step grid d st shot = st"
proof -
  have "\<not> (length (free_distances grid (matched_grid st) shot) > 0 \<and>
           np_min (free_distances grid (matched_grid st) shot) \<le> d)"
    using assms guard_iff [of grid "matched_grid st" shot d] by blast
  then show ?thesis
    by (auto simp: match_step_def Let_def)
qed

lemma match_step_matched:
  assumes "\<exists>i\<in>set (free_indices (matched_grid st)). euclidean shot (grid ! i) \<le> d"
  shows "match_step grid d st shot =
    \<lparr> shot_to_grid = (shot_to_grid st)(shot \<mapsto> grid ! closest_global_index grid (matched_grid st) shot),
      matched_grid = (matched_grid st)[closest_global_index grid (matched_grid st) shot := True],
      matched_shots = matched_shots st @ [grid ! closest_global_index grid (matched_grid st) shot] \<rparr>"
proof -
  have "length (free_distances grid (matched_grid st) shot) > 0 \<and>
           np_min (free_distances grid (matched_grid st) shot) \<le> d"
    using assms guard_iff [of grid "matched_grid st" shot d] by blast
  then show ?thesis
    by (simp add: match_step_def Let_def)
qed

lemma match_inv_init: "match_inv grid d (init_state grid)"
  by (simp add: match_inv_def init_state_def)

lemma match_inv_step:
  assumes inv: "match_inv grid d st"
  shows "match_inv grid d (match_step grid d st shot)"
proof (cases "\<exists>i\<in>set (free_indices (matched_grid st)). euclidean shot (grid ! i) \<le> d")
  case False
  then show ?thesis using inv by (simp add: match_step_unmatched)
next
  case True
  let ?mg = "matched_grid st" and ?m = "shot_to_grid st"
  let ?g = "closest_global_index grid ?mg shot"
  from True have ne: "free_indices ?mg \<noteq> []" by auto
  from inv have len: "length ?mg = length grid" by (simp add: match_inv_def)
  from closest_global_index_free [OF ne, of grid shot]
  have g: "?g < length grid" "\<not> ?mg ! ?g"
    using len by (simp_all add: set_free_indices)
  have gd: "euclidean shot (grid ! ?g) \<le> d"
    using True closest_global_index_dist [OF ne, of shot grid]
      guard_iff [of grid ?mg shot d] by simp
  from inv obtain f where f: "inj_on f (dom ?m)"
    "\<forall>s\<in>dom ?m. f s < length grid \<and> ?mg ! f s \<and> ?m s = Some (grid ! f s) \<and>
        euclidean s (grid ! f s) \<le> d"
    unfolding match_inv_def by blast
  let ?f = "f(shot := ?g)"
  have fg: "\<forall>s\<in>dom ?m. f s \<noteq> ?g" using f(2) g(2) by metis
  have inj: "inj_on ?f (insert shot (dom ?m))"
    unfolding inj_on_def using f(1) fg by (auto simp: inj_on_def)
  have props: "\<forall>s\<in>insert shot (dom ?m).
     ?f s < length grid \<and> ?mg[?g := True] ! ?f s \<and>
     (?m(shot \<mapsto> grid ! ?g)) s = Some (grid ! ?f s) \<and> euclidean s (grid ! ?f s) \<le> d"
    using f(2) g gd len by (auto simp: nth_list_update)
  let ?st' = "match_step grid d st shot"
  have m': "shot_to_grid ?st' = ?m(shot \<mapsto> grid ! ?g)"
    and mg': "matched_grid ?st' = ?mg[?g := True]"
    by (simp_all add: match_step_matched [OF True])
  have dom': "dom (shot_to_grid ?st') = insert shot (dom ?m)"
    by (simp add: m')
  have "length (matched_grid ?st') = length grid"
    using len by (simp add: mg')
  moreover have "inj_on ?f (dom (shot_to_grid ?st')) \<and>
      (\<forall>s\<in>dom (shot_to_grid ?st').
         ?f s < length grid \<and> matched_grid ?st' ! ?f s \<and>
         shot_to_grid ?st' s = Some (grid ! ?f s) \<and> euclidean s (grid ! ?f s) \<le> d)"
    unfolding dom' unfolding mg' m' using inj props by blast
  ultimately show ?thesis
    unfolding match_inv_def by blast
qed

lemma match_inv_loop:
  "match_inv grid d st \<Longrightarrow> match_inv grid d (match_loop grid d st shots)"
  unfolding match_loop_def
  by (induction shots arbitrary: st) (simp_all add: match_inv_step)




lemma match_loop_Cons:
  "match_loop grid d st (x # xs) = match_loop grid d (match_step grid d st x) xs"
  by (simp add: match_loop_def)

lemma match_step_self_None:
  "shot_to_grid st shot = None \<Longrightarrow>
   shot_to_grid (match_step grid d st shot) shot = None \<longleftrightarrow>
   (free_indices (matched_grid st) = [] \<or> d < np_min (free_distances grid (matched_grid st) shot))"
  by (auto simp: match_step_def Let_def free_distances_Nil_iff)

lemma dom_match_step:
  "dom (shot_to_grid (match_step grid d st shot)) \<subseteq> insert shot (dom (shot_to_grid st))"
  by (auto simp: match_step_def Let_def split: if_splits)

lemma dom_match_loop:
  "dom (shot_to_grid (match_loop grid d st shots)) \<subseteq> set shots \<union> dom (shot_to_grid st)"
  unfolding match_loop_def
proof (induction shots arbitrary: st)
  case Nil
  then show ?case by simp
next
  case (Cons x xs)
  from Cons.IH [of "match_step grid d st x"] dom_match_step [of grid d st x]
  show ?case by auto
qed

lemma report_inv_step:
  assumes "report_inv st" and "shot \<notin> dom (shot_to_grid st)"
  shows "report_inv (match_step grid d st shot)"
proof (cases "\<exists>i\<in>set (free_indices (matched_grid st)). euclidean shot (grid ! i) \<le> d")
  case False
  then show ?thesis using assms by (simp add: match_step_unmatched)
next
  case True
  from assms(2) have "shot_to_grid st shot = None" by auto
  then show ?thesis
    using assms unfolding report_inv_def match_step_matched [OF True]
    by (simp add: ran_map_upd)
qed

lemma report_inv_loop:
  assumes "report_inv st" and "distinct shots" and "set shots \<inter> dom (shot_to_grid st) = {}"
  shows "report_inv (match_loop grid d st shots)"
  using assms
proof (induction shots arbitrary: st)
  case Nil
  then show ?case by (simp add: match_loop_def)
next
  case (Cons x xs)
  have "report_inv (match_step grid d st x)"
    using Cons.prems by (auto intro: report_inv_step)
  moreover have "set xs \<inter> dom (shot_to_grid (match_step grid d st x)) = {}"
    using Cons.prems dom_match_step [of grid d st x] by auto
  ultimately show ?case
    using Cons.IH Cons.prems(2) by (simp add: match_loop_Cons)
qed




subsection \<open>Evaluating the matcher on concrete inputs\<close>

lemmas matcher_eval =
  match_step_def init_state_def free_distances_def cdist_row_def euclidean_def
  closest_global_index_def Let_def sqrt_le_iff_sq np_min_single np_min_Cons2 np_argmin_Cons
  free_indices_Nil free_indices_Cons min_def match_loop_def

lemma scenario_sorted:
  "sort_shots_from_right_bottom_to_left_top scenario_shots = [(21,21),(9,9),(1,1)]"
  by (simp add: sort_shots_from_right_bottom_to_left_top_def np_lexsort2_def scenario_shots_def)

lemma scenario_loop:
  "match_loop scenario_grid 5 (init_state scenario_grid) [(21,21),(9,9),(1,1)] =
     \<lparr> shot_to_grid = [(21,21) \<mapsto> (20,20), (9,9) \<mapsto> (10,10), (1,1) \<mapsto> (0,0)],
       matched_grid = [True, False, False, False, True, False, False, False, True],
       matched_shots = [(20,20), (10,10), (0,0)] \<rparr>"
  by (simp add: matcher_eval scenario_grid_def)

lemma scenario_result:
  "match_shots_to_grid scenario_shots scenario_grid 5 =
     ([(21,21) \<mapsto> (20,20), (9,9) \<mapsto> (10,10), (1,1) \<mapsto> (0,0)], [(20,20), (10,10), (0,0)])"
  by (simp add: match_shots_to_grid_def scenario_sorted scenario_loop)

lemma far_shot_sorted:
  "sort_shots_from_right_bottom_to_left_top [(1,1),(50,50)] = [(50,50),(1,1)]"
  by (simp add: sort_shots_from_right_bottom_to_left_top_def np_lexsort2_def)

lemma far_shot_result:
  "match_shots_to_grid [(1,1),(50,50)] [(0,0),(10,0)] 5 = ([(1,1) \<mapsto> (0,0)], [(0,0)])"
  by (simp add: match_shots_to_grid_def far_shot_sorted matcher_eval)



lemma match_shots_to_grid_inv:
  "match_inv grid d
     (match_loop grid d (init_state grid) (sort_shots_from_right_bottom_to_left_top shots))"
  by (rule match_inv_loop) (rule match_inv_init)

lemma fst_match_shots_to_grid:
  "fst (match_shots_to_grid shots grid d) =
   shot_to_grid (match_loop grid d (init_state grid)
     (sort_shots_from_right_bottom_to_left_top shots))"
  by (simp add: match_shots_to_grid_def Let_def)

lemma snd_match_shots_to_grid:
  "snd (match_shots_to_grid shots grid d) =
   matched_shots (match_loop grid d (init_state grid)
     (sort_shots_from_right_bottom_to_left_top shots))"
  by (simp add: match_shots_to_grid_def Let_def)

lemma sort_shots_set: "set (sort_shots_from_right_bottom_to_left_top shots) = set shots"
  by (simp add: sort_shots_from_right_bottom_to_left_top_def np_lexsort2_def)

lemma sort_shots_distinct:
  "distinct (sort_shots_from_right_bottom_to_left_top shots) = distinct shots"
  by (simp add: sort_shots_from_right_bottom_to_left_top_def np_lexsort2_def)

section \<open>The claims about the sequential unique matcher\<close>

text \<open>
  C1. The assignment returned by \<open>match_shots_to_grid\<close> is injective. Every key of the
  dictionary can be given the index of a grid node that holds its value so that distinct
  keys get distinct indices (no grid position is consumed twice); and when the nodes of the
  grid are pairwise different, as the nodes of a lattice are, no node is the target of two
  distinct source points. This holds for every threshold, positive or not.
\<close>

theorem match_shots_to_grid_injective:
  "(\<exists>f. inj_on f (dom (fst (match_shots_to_grid shot_points grid_points max_distance))) \<and>
        (\<forall>s\<in>dom (fst (match_shots_to_grid shot_points grid_points max_distance)).
           f s < length grid_points \<and>
           fst (match_shots_to_grid shot_points grid_points max_distance) s =
             Some (grid_points ! f s))) \<and>
   (distinct grid_points \<longrightarrow>
      (\<forall>s1 s2 n. fst (match_shots_to_grid shot_points grid_points max_distance) s1 = Some n \<and>
                 fst (match_shots_to_grid shot_points grid_points max_distance) s2 = Some n
                 \<longrightarrow> s1 = s2))"
proof -
  let ?m = "fst (match_shots_to_grid shot_points grid_points max_distance)"
  from match_shots_to_grid_inv [of grid_points max_distance shot_points]
  obtain f where f: "inj_on f (dom ?m)"
    "\<forall>s\<in>dom ?m. f s < length grid_points \<and> ?m s = Some (grid_points ! f s)"
    unfolding match_inv_def fst_match_shots_to_grid by blast
  have "s1 = s2" if d: "distinct grid_points" and 1: "?m s1 = Some n" and 2: "?m s2 = Some n"
    for s1 s2 n
  proof -
    from 1 2 have in_dom: "s1 \<in> dom ?m" "s2 \<in> dom ?m" by auto
    with f(2) 1 2 have "grid_points ! f s1 = grid_points ! f s2"
      "f s1 < length grid_points" "f s2 < length grid_points"
      by auto
    with d have "f s1 = f s2" by (simp add: nth_eq_iff_index_eq)
    with f(1) in_dom show ?thesis by (simp add: inj_on_def)
  qed
  with f show ?thesis by blast
qed

theorem match_shots_to_grid_injective_witness:
  "distinct scenario_grid \<and>
   fst (match_shots_to_grid scenario_shots scenario_grid 5) (21,21) = Some (20,20) \<and>
   fst (match_shots_to_grid scenario_shots scenario_grid 5) (9,9) \<noteq> Some (20,20) \<and>
   fst (match_shots_to_grid scenario_shots scenario_grid 5) (1,1) \<noteq> Some (20,20)"
proof -
  let ?m = "fst (match_shots_to_grid scenario_shots scenario_grid 5)"
  have d: "distinct scenario_grid" by (simp add: scenario_grid_def)
  have v: "?m (21,21) = Some (20,20)"
    by (simp add: scenario_result)
  from d match_shots_to_grid_injective [of scenario_shots scenario_grid 5]
  have inj: "\<forall>s1 s2 n. ?m s1 = Some n \<and> ?m s2 = Some n \<longrightarrow> s1 = s2"
    by blast
  have "?m (9,9) \<noteq> Some (20,20)"
  proof
    assume "?m (9,9) = Some (20,20)"
    with v inj have "((9,9) :: point) = (21,21)" by blast
    then show False by simp
  qed
  moreover have "?m (1,1) \<noteq> Some (20,20)"
  proof
    assume "?m (1,1) = Some (20,20)"
    with v inj have "((1,1) :: point) = (21,21)" by blast
    then show False by simp
  qed
  ultimately show ?thesis using d v by blast
qed



text \<open>
  C3. \<open>sort_shots_from_right_bottom_to_left_top\<close> returns the source points (the same
  points, each as often as before) in descending Y, ties in descending X: each point stands
  before every point with a smaller Y and before every point with the same Y and a smaller
  or equal X. It is the sort under the lexicographic key \<open>(-Y, -X)\<close>.
\<close>

theorem sort_shots_descending_y_then_x:
  "mset (sort_shots_from_right_bottom_to_left_top shot_points) = mset shot_points \<and>
   sorted_wrt (\<lambda>p q. snd q < snd p \<or> (snd p = snd q \<and> fst q \<le> fst p))
     (sort_shots_from_right_bottom_to_left_top shot_points) \<and>
   sort_shots_from_right_bottom_to_left_top shot_points =
     sort_key (\<lambda>p. (- snd p, - fst p)) shot_points"
proof -
  let ?r = "sort_shots_from_right_bottom_to_left_top shot_points"
  have m: "mset ?r = mset shot_points"
    by (simp add: sort_shots_from_right_bottom_to_left_top_def np_lexsort2_mset)
  have "sorted_wrt (\<lambda>p q. - snd p < - snd q \<or> (- snd p = - snd q \<and> - fst p \<le> - fst q)) ?r"
    unfolding sort_shots_from_right_bottom_to_left_top_def
    by (rule np_lexsort2_sorted)
  then have s: "sorted_wrt (\<lambda>p q. snd q < snd p \<or> (snd p = snd q \<and> fst q \<le> fst p)) ?r"
    by (rule sorted_wrt_mono_rel [rotated]) auto
  then have "sorted_wrt (\<lambda>p q. (- snd p, - fst p) \<le> (- snd q, - fst q)) ?r"
    by (rule sorted_wrt_mono_rel [rotated]) auto
  then have k: "sorted (map (\<lambda>p. (- snd p, - fst p)) ?r)"
    by (simp add: sorted_map)
  have "inj_on (\<lambda>p::point. (- snd p, - fst p)) (set shot_points)"
    by (auto simp: inj_on_def)
  with m k have "sort_key (\<lambda>p. (- snd p, - fst p)) shot_points = ?r"
    by (intro sort_key_inj_key_eq) simp_all
  with m s show ?thesis by simp
qed

text \<open>
  C7, as the specification states it, fails on the code: the source points are processed
  in the order (21,21), (9,9), (1,1), and when (9,9) has its turn the node (10,10) of the
  lattice is free and at distance \<open>sqrt 2\<close>, within the threshold 5, so (9,9) is matched to
  it. Three points are matched, none is left unmatched.
\<close>

theorem scenario_nine_nine_is_matched:
  "fst (match_shots_to_grid scenario_shots scenario_grid 5) (9,9) = Some (10,10) \<and>
   length (snd (match_shots_to_grid scenario_shots scenario_grid 5)) = 3"
  by (simp add: scenario_result)

text \<open>
  C7, amended. On the scenario the matcher returns exactly three matched pairs,
  (21,21) to (20,20), (9,9) to (10,10) and (1,1) to (0,0), found in this order.
\<close>

theorem scenario_all_three_matched:
  "match_shots_to_grid scenario_shots scenario_grid 5 =
     ([(21,21) \<mapsto> (20,20), (9,9) \<mapsto> (10,10), (1,1) \<mapsto> (0,0)], [(20,20), (10,10), (0,0)])"
  by (simp add: match_shots_to_grid_def scenario_sorted scenario_loop)

text \<open>
  C8, as the specification states it, fails on the code: \<open>match_shots_to_grid\<close> returns
  the dictionary and the list of matched grid nodes, and nothing else. The source point
  (50,50), farther than the threshold from every node, is no key of the dictionary and
  is in no returned collection.
\<close>

theorem unmatched_point_not_reported:
  "fst (match_shots_to_grid [(1,1),(50,50)] [(0,0),(10,0)] 5) (50,50) = None \<and>
   snd (match_shots_to_grid [(1,1),(50,50)] [(0,0),(10,0)] 5) = [(0,0)]"
  by (simp add: far_shot_result)

text \<open>
  C8, amended. For a duplicate-free source point set the matcher returns the assignment,
  whose keys are source points, and as second component the list of the assigned grid
  nodes, one per key; the unmatched points are not returned: they are the source points
  that are not keys.
\<close>

theorem match_shots_to_grid_returns_matched_nodes:
  assumes "distinct shot_points"
  shows "dom (fst (match_shots_to_grid shot_points grid_points max_distance)) \<subseteq> set shot_points \<and>
         set (snd (match_shots_to_grid shot_points grid_points max_distance)) =
           ran (fst (match_shots_to_grid shot_points grid_points max_distance)) \<and>
         length (snd (match_shots_to_grid shot_points grid_points max_distance)) =
           card (dom (fst (match_shots_to_grid shot_points grid_points max_distance))) \<and>
         set (snd (match_shots_to_grid shot_points grid_points max_distance)) \<subseteq> set grid_points"
proof -
  let ?sorted = "sort_shots_from_right_bottom_to_left_top shot_points"
  let ?final = "match_loop grid_points max_distance (init_state grid_points) ?sorted"
  have "report_inv (init_state grid_points)"
    by (simp add: report_inv_def init_state_def)
  moreover have "distinct ?sorted"
    using assms by (simp add: sort_shots_distinct)
  moreover have "set ?sorted \<inter> dom (shot_to_grid (init_state grid_points)) = {}"
    by (simp add: init_state_def)
  ultimately have r: "report_inv ?final"
    by (rule report_inv_loop)
  have d: "dom (shot_to_grid ?final) \<subseteq> set shot_points"
    using dom_match_loop [of grid_points max_distance "init_state grid_points" ?sorted]
    by (simp add: sort_shots_set init_state_def)
  from match_shots_to_grid_inv [of grid_points max_distance shot_points]
  obtain f where f: "\<forall>s\<in>dom (shot_to_grid ?final). f s < length grid_points \<and>
      shot_to_grid ?final s = Some (grid_points ! f s)"
    unfolding match_inv_def by blast
  have "ran (shot_to_grid ?final) \<subseteq> set grid_points"
  proof
    fix n assume "n \<in> ran (shot_to_grid ?final)"
    then obtain s where s: "shot_to_grid ?final s = Some n" by (auto simp: ran_def)
    then have "s \<in> dom (shot_to_grid ?final)" by auto
    with f s have "f s < length grid_points" "n = grid_points ! f s" by auto
    then show "n \<in> set grid_points" by simp
  qed
  with r d show ?thesis
    by (simp add: report_inv_def fst_match_shots_to_grid snd_match_shots_to_grid)
qed

theorem match_shots_to_grid_returns_matched_nodes_witness:
  "distinct [(1,1),(50,50)::point] \<and>
   dom (fst (match_shots_to_grid [(1,1),(50,50)] [(0,0),(10,0)] 5)) \<subseteq> set [(1,1),(50,50)] \<and>
   set (snd (match_shots_to_grid [(1,1),(50,50)] [(0,0),(10,0)] 5)) =
     ran (fst (match_shots_to_grid [(1,1),(50,50)] [(0,0),(10,0)] 5)) \<and>
   length (snd (match_shots_to_grid [(1,1),(50,50)] [(0,0),(10,0)] 5)) =
     card (dom (fst (match_shots_to_grid [(1,1),(50,50)] [(0,0),(10,0)] 5))) \<and>
   set (snd (match_shots_to_grid [(1,1),(50,50)] [(0,0),(10,0)] 5)) \<subseteq> set [(0,0),(10,0)]"
proof -
  have d: "distinct [(1,1),(50,50)::point]" by simp
  from match_shots_to_grid_returns_matched_nodes [OF d, of "[(0,0),(10,0)]" 5] d
  show ?thesis by blast
qed

text \<open>
  C10. When some free node lies within the threshold, the loop body assigns to the source
  point the free node \<open>g\<close> that is nearest, and among the free nodes at exactly that
  distance the one with the smallest index in the grid array: every free node at the same
  distance has an index of at least \<open>g\<close>. It marks exactly that node as consumed.
\<close>

theorem match_step_tie_break:
  assumes "\<exists>i<length (matched_grid st).
             \<not> matched_grid st ! i \<and> euclidean shot (grid_points ! i) \<le> max_distance"
  shows "\<exists>g<length (matched_grid st).
           \<not> matched_grid st ! g \<and>
           shot_to_grid (match_step grid_points max_distance st shot) shot =
             Some (grid_points ! g) \<and>
           matched_grid (match_step grid_points max_distance st shot) =
             (matched_grid st)[g := True] \<and>
           (\<forall>j<length (matched_grid st). \<not> matched_grid st ! j \<longrightarrow>
              euclidean shot (grid_points ! g) \<le> euclidean shot (grid_points ! j) \<and>
              (euclidean shot (grid_points ! j) = euclidean shot (grid_points ! g) \<longrightarrow> g \<le> j))"
proof -
  let ?mg = "matched_grid st"
  let ?g = "closest_global_index grid_points ?mg shot"
  from assms have ex: "\<exists>i\<in>set (free_indices ?mg). euclidean shot (grid_points ! i) \<le> max_distance"
    by (auto simp: set_free_indices)
  then have ne: "free_indices ?mg \<noteq> []" by auto
  from closest_global_index_free [OF ne, of grid_points shot]
  have g: "?g < length ?mg" "\<not> ?mg ! ?g"
    by (simp_all add: set_free_indices)
  have dg: "euclidean shot (grid_points ! ?g) = np_min (free_distances grid_points ?mg shot)"
    by (rule closest_global_index_dist [OF ne])
  have least: "euclidean shot (grid_points ! ?g) \<le> euclidean shot (grid_points ! j) \<and>
      (euclidean shot (grid_points ! j) = euclidean shot (grid_points ! ?g) \<longrightarrow> ?g \<le> j)"
    if "j < length ?mg" "\<not> ?mg ! j" for j
  proof -
    from that have j: "j \<in> set (free_indices ?mg)" by (simp add: set_free_indices)
    from free_distance_ge_min [OF j, of grid_points shot] dg
    have "euclidean shot (grid_points ! ?g) \<le> euclidean shot (grid_points ! j)" by simp
    moreover have "?g \<le> j" if "euclidean shot (grid_points ! j) = euclidean shot (grid_points ! ?g)"
    proof (rule ccontr)
      assume "\<not> ?g \<le> j"
      then have "j < ?g" by simp
      from closest_global_index_least [OF j this] dg that show False by simp
    qed
    ultimately show ?thesis by blast
  qed
  have "shot_to_grid (match_step grid_points max_distance st shot) shot = Some (grid_points ! ?g)"
    "matched_grid (match_step grid_points max_distance st shot) = ?mg[?g := True]"
    by (simp_all add: match_step_matched [OF ex])
  with g least show ?thesis by blast
qed

theorem match_step_tie_break_witness:
  "(\<exists>i<length (matched_grid (init_state [(0,0),(2,0)])).
      \<not> matched_grid (init_state [(0,0),(2,0)]) ! i \<and> euclidean (1,0) ([(0,0),(2,0)] ! i) \<le> 5) \<and>
   euclidean (1,0) (0,0) = euclidean (1,0) (2,0) \<and>
   shot_to_grid (match_step [(0,0),(2,0)] 5 (init_state [(0,0),(2,0)]) (1,0)) (1,0) = Some (0,0) \<and>
   (\<exists>g<length (matched_grid (init_state [(0,0),(2,0)])).
      \<not> matched_grid (init_state [(0,0),(2,0)]) ! g \<and>
      shot_to_grid (match_step [(0,0),(2,0)] 5 (init_state [(0,0),(2,0)]) (1,0)) (1,0) =
        Some ([(0,0),(2,0)] ! g) \<and>
      matched_grid (match_step [(0,0),(2,0)] 5 (init_state [(0,0),(2,0)]) (1,0)) =
        (matched_grid (init_state [(0,0),(2,0)]))[g := True] \<and>
      (\<forall>j<length (matched_grid (init_state [(0,0),(2,0)])).
         \<not> matched_grid (init_state [(0,0),(2,0)]) ! j \<longrightarrow>
         euclidean (1,0) ([(0,0),(2,0)] ! g) \<le> euclidean (1,0) ([(0,0),(2,0)] ! j) \<and>
         (euclidean (1,0) ([(0,0),(2,0)] ! j) = euclidean (1,0) ([(0,0),(2,0)] ! g) \<longrightarrow> g \<le> j)))"
proof -
  have h: "\<exists>i<length (matched_grid (init_state [(0,0),(2,0)])).
      \<not> matched_grid (init_state [(0,0),(2,0)]) ! i \<and> euclidean (1,0) ([(0,0),(2,0)] ! i) \<le> 5"
    by (rule exI [of _ 0]) (simp add: init_state_def euclidean_def)
  have e: "euclidean (1,0) (0,0) = euclidean (1,0) (2,0)"
    by (simp add: euclidean_def)
  have v: "shot_to_grid (match_step [(0,0),(2,0)] 5 (init_state [(0,0),(2,0)]) (1,0)) (1,0) = Some (0,0)"
    by (simp add: matcher_eval)
  from match_step_tie_break [OF h] h e v show ?thesis by blast
qed

section \<open>Properties of the grid synthesizer\<close>

subsection \<open>Evaluating the synthesizer on concrete inputs\<close>

lemma np_max_single: "np_max [d] = d"
  by (simp add: np_max_def)

lemma np_max_Cons2: "np_max (d # e # ds) = max d (np_max (e # ds))"
  by (simp add: np_max_def)

lemmas grid_eval =
  regularize_coordinates_def grid_axes_def grid_cols_def grid_rows_def start_x_def start_y_def
  as_int32_array_def in_int32_def py_int_def py_round_def astype_int32_def
  np_meshgrid_points_def np_min_single np_min_Cons2 np_max_single np_max_Cons2 Let_def
  ceiling_def

lemma upt3: "[0..<3] = [0, 1, 2]" by (simp add: upt_rec)


subsection \<open>Rounding, truncation and the coordinate arrays\<close>











lemma astype_int32_id: "in_int32 i \<Longrightarrow> astype_int32 i = i"
  by (simp add: in_int32_def astype_int32_def)

lemma as_int32_array_Inr:
  "as_int32_array vs = Inr x \<Longrightarrow> x = map py_int vs \<and> list_all in_int32 x"
  by (auto simp: as_int32_array_def list_all_iff split: if_splits)


lemma grid_axes_in_int32:
  assumes "grid_axes orig rs cs = Inr (x, y)"
  shows "list_all in_int32 x \<and> list_all in_int32 y"
  using assms
  by (auto simp: grid_axes_def split: if_splits sum.splits dest: as_int32_array_Inr)

lemma set_np_meshgrid_points: "set (np_meshgrid_points x y) = set x \<times> set y"
  by (auto simp: np_meshgrid_points_def)

lemma regularize_coordinates_of_axes:
  assumes "grid_axes orig rs cs = Inr (x, y)"
  shows "regularize_coordinates orig rs cs = Inr (np_meshgrid_points x y)"
proof -
  from grid_axes_in_int32 [OF assms]
  have "\<forall>a\<in>set x. astype_int32 a = a" "\<forall>b\<in>set y. astype_int32 b = b"
    by (auto simp: list_all_iff astype_int32_id)
  then have "list_all (\<lambda>(a, b). a = astype_int32 a \<and> b = astype_int32 b) (np_meshgrid_points x y)"
    by (auto simp: list_all_iff set_np_meshgrid_points)
  with assms show ?thesis
    by (simp add: regularize_coordinates_def)
qed

text \<open>
  The comparison with \<open>astype(np.int32)\<close> can never fail: whatever the input, the
  synthesizer does not raise its non-integer error.
\<close>

lemma regularize_coordinates_never_non_integer:
  "regularize_coordinates orig rs cs \<noteq> Inl NonIntegerCoordinates"
proof (cases "grid_axes orig rs cs")
  case (Inl e)
  then have "e \<noteq> NonIntegerCoordinates"
    by (auto simp: grid_axes_def as_int32_array_def split: if_splits sum.splits)
  with Inl show ?thesis by (simp add: regularize_coordinates_def)
next
  case (Inr xy)
  then obtain x y where "grid_axes orig rs cs = Inr (x, y)" by (cases xy) simp
  from regularize_coordinates_of_axes [OF this] show ?thesis by simp
qed













section \<open>The claims about the grid synthesizer\<close>







text \<open>
  C9. The specification is right that a lattice with a non-integer coordinate must be
  refused, and the code attempts it: it compares \<open>reg_coords\<close> with
  \<open>reg_coords.astype(np.int32)\<close> and raises when they differ. But the coordinate arrays
  were already converted to \<open>int32\<close> when they were built, so the comparison never fails.
  For the reference points (0, 0) and (5, 5) with spacing 2.5 the lattice contains the
  coordinate 2.5; the code returns a grid in which it has become 2.
\<close>

theorem regularize_coordinates_accepts_fractional_spacing:
  "regularize_coordinates [(0, 0), (5, 5)] (5 / 2) (5 / 2) =
     Inr [(0, 0), (2, 0), (5, 0), (0, 2), (2, 2), (5, 2), (0, 5), (2, 5), (5, 5)] \<and>
   (0 :: real) + 1 * (5 / 2) \<notin> \<int>"
proof -
  have "(5 / 2 :: real) \<notin> \<int>"
  proof
    assume "(5 / 2 :: real) \<in> \<int>"
    then obtain k :: int where "(5 / 2 :: real) = of_int k" by (auto elim: Ints_cases)
    then have "of_int (2 * k) = (of_int 5 :: real)" by simp
    then have "2 * k = 5" by (simp only: of_int_eq_iff)
    then show False by presburger
  qed
  then show ?thesis by (simp add: grid_eval upt3)
qed

section \<open>Properties of the offset-align matcher\<close>











section \<open>The claim about the offset-align matcher\<close>



end
